theory Spec2Isabelle
  imports Complex_Main "HOL-Library.AList"
begin

section \<open>Numbers, dictionaries and events\<close>

text \<open>
  Prices and volumes are Python floats obtained by \<^verbatim>\<open>float(p)\<close>, \<^verbatim>\<open>float(v)\<close>.
  They are modelled as rationals: finite values with exact arithmetic. The only non-finite
  float the extractor produces by itself is the not-a-number that \<^verbatim>\<open>_mid_price\<close> returns
  when a side is empty, so the mid price has a type of its own with that extra value.
\<close>

datatype pyfloat = Num rat | NaN

text \<open>\<^verbatim>\<open>math.isnan(x)\<close>: raises TypeError on \<^verbatim>\<open>None\<close>.\<close>

datatype py_error = JSONDecodeError | AttributeError | KeyError | TypeError

fun isnan :: "pyfloat option \<Rightarrow> py_error + bool" where
  "isnan None = Inl TypeError"
| "isnan (Some NaN) = Inr True"
| "isnan (Some (Num x)) = Inr False"

text \<open>
  \<^verbatim>\<open>a != b\<close> for \<^verbatim>\<open>a\<close> a float or \<^verbatim>\<open>None\<close> and \<^verbatim>\<open>b\<close> a float: \<^verbatim>\<open>None\<close> differs from
  every float, and not-a-number differs from every float, itself included.
\<close>

fun py_ne :: "pyfloat option \<Rightarrow> pyfloat \<Rightarrow> bool" where
  "py_ne None b = True"
| "py_ne (Some NaN) b = True"
| "py_ne (Some (Num x)) NaN = True"
| "py_ne (Some (Num x)) (Num y) = (x \<noteq> y)"

text \<open>
  \<^verbatim>\<open>math.isclose(a, b)\<close> with its defaults \<^verbatim>\<open>rel_tol=1e-09\<close>, \<^verbatim>\<open>abs_tol=0.0\<close>:
  equal values are close; otherwise the difference is compared with the relative
  tolerance scaled by either argument, and with the absolute tolerance.
\<close>

definition rel_tol :: rat where
  "rel_tol = 1 / 1000000000"

definition abs_tol :: rat where
  "abs_tol = 0"

definition isclose :: "rat \<Rightarrow> rat \<Rightarrow> bool" where
  "isclose a b =
     (a = b \<or>
      (\<bar>b - a\<bar> \<le> \<bar>rel_tol * b\<bar> \<or> \<bar>b - a\<bar> \<le> \<bar>rel_tol * a\<bar>) \<or> \<bar>b - a\<bar> \<le> abs_tol)"

text \<open>
  A \<^verbatim>\<open>Dict[float, float]\<close> is an association list with one entry per key, in insertion
  order as in Python: \<^verbatim>\<open>d[k] = v\<close> is \<^const>\<open>AList.update\<close> (overwrites in place or
  appends), \<^verbatim>\<open>d.pop(k, None)\<close> is \<^const>\<open>AList.delete\<close>, \<^verbatim>\<open>d.get(k, dflt)\<close> is
  \<open>dict_get\<close>, \<^verbatim>\<open>d.keys()\<close> is \<open>keys\<close>.
\<close>

type_synonym pydict = "(rat \<times> rat) list"

definition dict_get :: "pydict \<Rightarrow> rat \<Rightarrow> rat \<Rightarrow> rat" where
  "dict_get d k dflt = (case map_of d k of None \<Rightarrow> dflt | Some v \<Rightarrow> v)"

definition keys :: "pydict \<Rightarrow> rat list" where
  "keys d = map fst d"

text \<open>The dict comprehension \<^verbatim>\<open>{float(p): float(v) for p, v in xs}\<close>: a later pair wins.\<close>

definition dict_of :: "(rat \<times> rat) list \<Rightarrow> pydict" where
  "dict_of xs = fold (\<lambda>pv d. AList.update (fst pv) (snd pv) d) xs []"

datatype side = Ask | Bid

record LOBEvent =
  action :: string
  price :: rat
  volume :: rat
  depth :: nat
  index :: int
  mid_price :: pyfloat
  previous_vol :: rat
  volume_change_normalized :: rat

section \<open>The extractor\<close>

record extractor =
  max_depth :: int
  asks :: pydict
  bids :: pydict
  sorted_asks :: "rat list option"
  sorted_bids :: "rat list option"
  last_mid_price :: "pyfloat option"

definition LOBEventExtractor_init :: "int \<Rightarrow> extractor" where
  "LOBEventExtractor_init md =
     \<lparr>max_depth = md, asks = [], bids = [], sorted_asks = None, sorted_bids = None,
      last_mid_price = None\<rparr>"

definition invalidate_sorted :: "extractor \<Rightarrow> extractor" where
  "invalidate_sorted s = s\<lparr>sorted_asks := None, sorted_bids := None\<rparr>"

text \<open>
  \<^verbatim>\<open>_ensure_sorted\<close>: each cached list is rebuilt only when it is \<^verbatim>\<open>None\<close>; asks
  ascending, bids descending.
\<close>

definition ensure_sorted :: "extractor \<Rightarrow> extractor" where
  "ensure_sorted s =
     (let s1 = (if sorted_asks s = None
                then s\<lparr>sorted_asks := Some (sort (keys (asks s)))\<rparr> else s)
      in if sorted_bids s1 = None
         then s1\<lparr>sorted_bids := Some (rev (sort (keys (bids s1))))\<rparr> else s1)"

text \<open>
  \<^verbatim>\<open>_mid_price\<close>: not-a-number when a side is empty, else the mean of the largest bid
  price and the smallest ask price.
\<close>

definition mid_price_of :: "extractor \<Rightarrow> pyfloat" where
  "mid_price_of s =
     (case keys (bids s) of
        [] \<Rightarrow> NaN
      | b # bs \<Rightarrow>
          (case keys (asks s) of
             [] \<Rightarrow> NaN
           | a # as \<Rightarrow> Num ((fold max bs b + fold min as a) / 2)))"

definition process_snapshot ::
  "extractor \<Rightarrow> (rat \<times> rat) list \<Rightarrow> (rat \<times> rat) list \<Rightarrow> extractor" where
  "process_snapshot s a b = invalidate_sorted (s\<lparr>asks := dict_of a, bids := dict_of b\<rparr>)"

text \<open>
  The scan of \<^verbatim>\<open>_depth_of_price\<close>: the index of the first entry that satisfies the
  test, the length of the list when none does (the counter then equals it).
\<close>

fun depth_scan :: "rat \<Rightarrow> side \<Rightarrow> nat \<Rightarrow> rat list \<Rightarrow> nat" where
  "depth_scan pr sd i [] = i"
| "depth_scan pr sd i (p # ps) =
     (if isclose p pr \<or> (sd = Ask \<and> p \<ge> pr) \<or> (sd = Bid \<and> p \<le> pr) then i
      else depth_scan pr sd (Suc i) ps)"

text \<open>
  \<^verbatim>\<open>_depth_of_price\<close> returns the depth and leaves the caches filled. After
  \<open>ensure_sorted\<close> neither cache is \<^verbatim>\<open>None\<close> (lemma \<open>ensure_sorted_Some\<close> below), so the
  \<open>None\<close> branch of the case is never taken.
\<close>

definition depth_of_price :: "extractor \<Rightarrow> rat \<Rightarrow> side \<Rightarrow> nat \<times> extractor" where
  "depth_of_price s pr sd =
     (let s1 = ensure_sorted s;
          prices = (case (if sd = Ask then sorted_asks s1 else sorted_bids s1) of
                      Some ps \<Rightarrow> ps | None \<Rightarrow> [])
      in (depth_scan pr sd 0 prices, s1))"

text \<open>
  The body of the first loop of \<^verbatim>\<open>process_delta\<close>, on the pair of the extractor and
  the \<^verbatim>\<open>events\<close> list. The constructor arguments of an event, the mid price among them,
  are evaluated before the dictionary is changed.
\<close>

definition ask_update ::
  "int \<Rightarrow> rat \<times> rat \<Rightarrow> extractor \<times> LOBEvent list \<Rightarrow> extractor \<times> LOBEvent list" where
  "ask_update idx u se =
     (case u of (pr, vol) \<Rightarrow> case se of (s, events) \<Rightarrow>
        let prev_vol = dict_get (asks s) pr 0;
            ds = (if prev_vol > 0 then depth_of_price s pr Ask else depth_of_price s pr Ask);
            dep = fst ds;
            s1 = snd ds;
            change = vol - prev_vol
        in if vol = 0 then
             (let events1 =
                (if int dep < max_depth s1 then
                   events @ [\<lparr>action = ''market_buy'', price = pr, volume = - change,
                     depth = dep, index = idx, mid_price = mid_price_of s1,
                     previous_vol = prev_vol,
                     volume_change_normalized =
                       (if prev_vol > 0 then change / prev_vol else 1)\<rparr>]
                 else events)
              in (s1\<lparr>asks := AList.delete pr (asks s1)\<rparr>, events1))
           else
             (let events1 =
                (if int dep < max_depth s1 then
                   (if change > 0 then
                      events @ [\<lparr>action = ''sell_limit_added'', price = pr, volume = change,
                        depth = dep, index = idx, mid_price = mid_price_of s1,
                        previous_vol = prev_vol,
                        volume_change_normalized =
                          (if prev_vol > 0 then change / prev_vol else 1)\<rparr>]
                    else if change < 0 then
                      events @ [\<lparr>action = ''sell_limit_canceled'', price = pr,
                        volume = - change, depth = dep, index = idx,
                        mid_price = mid_price_of s1, previous_vol = prev_vol,
                        volume_change_normalized =
                          (if prev_vol > 0 then - change / prev_vol else 1)\<rparr>]
                    else events)
                 else events)
              in (s1\<lparr>asks := AList.update pr vol (asks s1)\<rparr>, events1)))"

text \<open>The body of the second loop, on the bid side.\<close>

definition bid_update ::
  "int \<Rightarrow> rat \<times> rat \<Rightarrow> extractor \<times> LOBEvent list \<Rightarrow> extractor \<times> LOBEvent list" where
  "bid_update idx u se =
     (case u of (pr, vol) \<Rightarrow> case se of (s, events) \<Rightarrow>
        let prev_vol = dict_get (bids s) pr 0;
            ds = (if prev_vol > 0 then depth_of_price s pr Bid else depth_of_price s pr Bid);
            dep = fst ds;
            s1 = snd ds;
            change = vol - prev_vol
        in if vol = 0 then
             (let events1 =
                (if int dep < max_depth s1 then
                   events @ [\<lparr>action = ''market_sell'', price = pr, volume = - change,
                     depth = dep, index = idx, mid_price = mid_price_of s1,
                     previous_vol = prev_vol,
                     volume_change_normalized =
                       (if prev_vol > 0 then change / prev_vol else 1)\<rparr>]
                 else events)
              in (s1\<lparr>bids := AList.delete pr (bids s1)\<rparr>, events1))
           else
             (let events1 =
                (if int dep < max_depth s1 then
                   (if change > 0 then
                      events @ [\<lparr>action = ''buy_limit_added'', price = pr, volume = change,
                        depth = dep, index = idx, mid_price = mid_price_of s1,
                        previous_vol = prev_vol,
                        volume_change_normalized =
                          (if prev_vol > 0 then change / prev_vol else 1)\<rparr>]
                    else if change < 0 then
                      events @ [\<lparr>action = ''buy_limit_canceled'', price = pr,
                        volume = - change, depth = dep, index = idx,
                        mid_price = mid_price_of s1, previous_vol = prev_vol,
                        volume_change_normalized =
                          (if prev_vol > 0 then - change / prev_vol else 1)\<rparr>]
                    else events)
                 else events)
              in (s1\<lparr>bids := AList.update pr vol (bids s1)\<rparr>, events1)))"

text \<open>
  \<^verbatim>\<open>process_delta\<close>: the ask loop, then the bid loop, then the caches are dropped.
  The result is the extractor after the call and the returned event list.
\<close>

definition process_delta ::
  "extractor \<Rightarrow> (rat \<times> rat) list \<Rightarrow> (rat \<times> rat) list \<Rightarrow> int \<Rightarrow> extractor \<times> LOBEvent list"
  where
  "process_delta s a b idx =
     (let se1 = fold (ask_update idx) a (s, []);
          se2 = fold (bid_update idx) b se1
      in (invalidate_sorted (fst se2), snd se2))"

section \<open>The drivers\<close>

text \<open>
  A line after \<^verbatim>\<open>json.loads\<close>: text that does not decode, a JSON value that is not an
  object (no \<^verbatim>\<open>get\<close> method), or an object. Of an object the model keeps what the
  drivers read: whether \<^verbatim>\<open>"type"\<close> is \<^verbatim>\<open>"snapshot"\<close>, \<^verbatim>\<open>"delta"\<close> or anything else
  (absent included), and the \<^verbatim>\<open>"data"\<close> entry when present, as its two lists of
  price and volume pairs (an absent \<^verbatim>\<open>"a"\<close> or \<^verbatim>\<open>"b"\<close> is the empty list).
\<close>

datatype kind = Snapshot | Delta | Other

datatype line =
    Malformed
  | NonObject
  | Obj kind "((rat \<times> rat) list \<times> (rat \<times> rat) list) option"

text \<open>
  \<^verbatim>\<open>parse_file\<close> is a generator: the result is the list of tuples yielded and the
  exception that ended the iteration, if one did. The gate applies \<^verbatim>\<open>math.isnan\<close> to
  \<^verbatim>\<open>last_mid_price\<close> first.
\<close>

fun parse_loop ::
  "extractor \<Rightarrow> nat \<Rightarrow> line list \<Rightarrow> (int \<times> LOBEvent list \<times> pyfloat) list \<times> py_error option"
  where
  "parse_loop ex idx [] = ([], None)"
| "parse_loop ex idx (Malformed # rest) = ([], Some JSONDecodeError)"
| "parse_loop ex idx (NonObject # rest) = ([], Some AttributeError)"
| "parse_loop ex idx (Obj k d # rest) =
     (let ab = (case d of None \<Rightarrow> ([], []) | Some x \<Rightarrow> x);
          r = (if k = Snapshot then (process_snapshot ex (fst ab) (snd ab), [])
               else if k = Delta then process_delta ex (fst ab) (snd ab) (int idx)
               else (ex, []));
          ex1 = fst r;
          new_events = snd r;
          mid = mid_price_of ex1
      in case isnan (last_mid_price ex1) of
           Inl e \<Rightarrow> ([], Some e)
         | Inr last_nan \<Rightarrow>
             (let changed =
                (if last_nan \<and> isnan (Some mid) = Inr False then True
                 else last_mid_price ex1 = None \<or> py_ne (last_mid_price ex1) mid)
              in if changed then
                   (case parse_loop (ex1\<lparr>last_mid_price := Some mid\<rparr>) (Suc idx) rest of
                      (ys, err) \<Rightarrow> ((int idx, new_events, mid) # ys, err))
                 else parse_loop ex1 (Suc idx) rest))"

definition parse_file ::
  "int \<Rightarrow> line list \<Rightarrow> (int \<times> LOBEvent list \<times> pyfloat) list \<times> py_error option" where
  "parse_file md lines = parse_loop (LOBEventExtractor_init md) 0 lines"

text \<open>
  \<^verbatim>\<open>infer_events_from_lines\<close> returns the accumulated events and mid prices, or
  raises. It reads \<^verbatim>\<open>l["data"]\<close>, a KeyError when the entry is absent; a snapshot line
  skips the gate.
\<close>

fun infer_loop ::
  "extractor \<Rightarrow> nat \<Rightarrow> LOBEvent list \<Rightarrow> pyfloat list \<Rightarrow> line list \<Rightarrow>
   py_error + (LOBEvent list \<times> pyfloat list)" where
  "infer_loop ex idx events mid_prices [] = Inr (events, mid_prices)"
| "infer_loop ex idx events mid_prices (Malformed # rest) = Inl JSONDecodeError"
| "infer_loop ex idx events mid_prices (NonObject # rest) = Inl AttributeError"
| "infer_loop ex idx events mid_prices (Obj k None # rest) = Inl KeyError"
| "infer_loop ex idx events mid_prices (Obj k (Some ab) # rest) =
     (if k = Snapshot then
        infer_loop (process_snapshot ex (fst ab) (snd ab)) (Suc idx) events mid_prices rest
      else
        (let r = process_delta ex (fst ab) (snd ab) (int idx);
             ex1 = fst r;
             evs = snd r;
             mid = mid_price_of ex1
         in if last_mid_price ex1 = None \<or> py_ne (last_mid_price ex1) mid then
              infer_loop (ex1\<lparr>last_mid_price := Some mid\<rparr>) (Suc idx) (events @ evs)
                (mid_prices @ [mid]) rest
            else infer_loop ex1 (Suc idx) events mid_prices rest))"

definition infer_events_from_lines ::
  "line list \<Rightarrow> py_error + (LOBEvent list \<times> pyfloat list)" where
  "infer_events_from_lines lines = infer_loop (LOBEventExtractor_init 50) 0 [] [] lines"

section \<open>Notions used in the statements\<close>

text \<open>
  The test of the scan in \<^verbatim>\<open>_depth_of_price\<close> on one entry \<open>p\<close> of the sorted list:
  the tolerance equality first, then the pass-through test of the side.
\<close>

definition rank_test :: "rat \<Rightarrow> side \<Rightarrow> rat \<Rightarrow> bool" where
  "rank_test pr sd p = (isclose p pr \<or> (sd = Ask \<and> p \<ge> pr) \<or> (sd = Bid \<and> p \<le> pr))"

text \<open>
  The list \<^verbatim>\<open>_depth_of_price\<close> scans for a side: the cached one if there is one, else
  the one \<^verbatim>\<open>_ensure_sorted\<close> builds from the dictionary.
\<close>

definition view_of :: "extractor \<Rightarrow> side \<Rightarrow> rat list" where
  "view_of s sd =
     (if sd = Ask then (case sorted_asks s of None \<Rightarrow> sort (keys (asks s)) | Some ps \<Rightarrow> ps)
      else (case sorted_bids s of None \<Rightarrow> rev (sort (keys (bids s))) | Some ps \<Rightarrow> ps))"

text \<open>One pass of a loop body, split into the extractor it leaves and the events it appends.\<close>

definition ask_emit :: "int \<Rightarrow> rat \<times> rat \<Rightarrow> extractor \<Rightarrow> LOBEvent list" where
  "ask_emit idx u s = snd (ask_update idx u (s, []))"

definition ask_next :: "int \<Rightarrow> rat \<times> rat \<Rightarrow> extractor \<Rightarrow> extractor" where
  "ask_next idx u s = fst (ask_update idx u (s, []))"

definition bid_emit :: "int \<Rightarrow> rat \<times> rat \<Rightarrow> extractor \<Rightarrow> LOBEvent list" where
  "bid_emit idx u s = snd (bid_update idx u (s, []))"

definition bid_next :: "int \<Rightarrow> rat \<times> rat \<Rightarrow> extractor \<Rightarrow> extractor" where
  "bid_next idx u s = fst (bid_update idx u (s, []))"

text \<open>
  Inside \<^verbatim>\<open>process_delta s a b idx\<close>: the extractor as the \<open>i\<close>-th ask update
  (the \<open>i\<close>-th bid update) starts, and the events that update appends.
\<close>

definition ask_state_before :: "extractor \<Rightarrow> (rat \<times> rat) list \<Rightarrow> int \<Rightarrow> nat \<Rightarrow> extractor" where
  "ask_state_before s a idx i = fst (fold (ask_update idx) (take i a) (s, []))"

definition bid_state_before ::
  "extractor \<Rightarrow> (rat \<times> rat) list \<Rightarrow> (rat \<times> rat) list \<Rightarrow> int \<Rightarrow> nat \<Rightarrow> extractor" where
  "bid_state_before s a b idx i =
     fst (fold (bid_update idx) (take i b) (fold (ask_update idx) a (s, [])))"

definition ask_emitted :: "extractor \<Rightarrow> (rat \<times> rat) list \<Rightarrow> int \<Rightarrow> nat \<Rightarrow> LOBEvent list" where
  "ask_emitted s a idx i = snd (ask_update idx (a ! i) (ask_state_before s a idx i, []))"

definition bid_emitted ::
  "extractor \<Rightarrow> (rat \<times> rat) list \<Rightarrow> (rat \<times> rat) list \<Rightarrow> int \<Rightarrow> nat \<Rightarrow> LOBEvent list" where
  "bid_emitted s a b idx i = snd (bid_update idx (b ! i) (bid_state_before s a b idx i, []))"

text \<open>
  The book of the first test scenario: asks 101 and 102, bids 100 and 99, five units each,
  loaded by a snapshot into a new extractor with the default depth limit.
\<close>

definition scenario_A :: extractor where
  "scenario_A =
     process_snapshot (LOBEventExtractor_init 50) [(101, 5), (102, 5)] [(100, 5), (99, 5)]"

text \<open>
  The rank of a price in the sorted list of a side built from the dictionaries of \<open>s\<close>:
  for \<open>s\<close> the extractor as a batch starts, the depth before the batch.
\<close>

definition pre_batch_depth :: "extractor \<Rightarrow> side \<Rightarrow> rat \<Rightarrow> nat" where
  "pre_batch_depth s sd pr =
     depth_scan pr sd 0 (if sd = Ask then sort (keys (asks s)) else rev (sort (keys (bids s))))"

text \<open>No entry of either dictionary has volume 0.\<close>

definition no_zero_level :: "extractor \<Rightarrow> bool" where
  "no_zero_level s = (0 \<notin> snd ` set (asks s) \<and> 0 \<notin> snd ` set (bids s))"

text \<open>The same book in an extractor that reports the best level of each side only.\<close>

definition scenario_shallow :: extractor where
  "scenario_shallow =
     process_snapshot (LOBEventExtractor_init 1) [(101, 5), (102, 5)] [(100, 5), (99, 5)]"

section \<open>The scan and the caches\<close>

lemma depth_scan_takeWhile:
  "depth_scan pr sd i ps = i + length (takeWhile (\<lambda>p. \<not> rank_test pr sd p) ps)"
  by (induction ps arbitrary: i) (simp_all add: rank_test_def)

lemma ensure_sorted_fields [simp]:
  "asks (ensure_sorted s) = asks s"
  "bids (ensure_sorted s) = bids s"
  "max_depth (ensure_sorted s) = max_depth s"
  "last_mid_price (ensure_sorted s) = last_mid_price s"
  by (simp_all add: ensure_sorted_def Let_def)

lemma ensure_sorted_Some:
  "sorted_asks (ensure_sorted s) = Some (view_of s Ask)"
  "sorted_bids (ensure_sorted s) = Some (view_of s Bid)"
  by (auto simp: ensure_sorted_def view_of_def Let_def split: option.splits)

lemma mid_price_of_ensure_sorted [simp]: "mid_price_of (ensure_sorted s) = mid_price_of s"
  by (simp add: mid_price_of_def split: list.splits)

lemma depth_of_price_eq:
  "depth_of_price s pr sd = (depth_scan pr sd 0 (view_of s sd), ensure_sorted s)"
  by (cases sd) (simp_all add: depth_of_price_def Let_def ensure_sorted_Some)

text \<open>
  C8. The rank is the index of the first entry of the scanned list that passes the test
  (equal to the query within the tolerance, or reached or passed by it in the order of the
  side): no earlier entry passes, the entry at the rank does, and the rank is the length
  of the list when no entry passes. The two tests are joined by \<^verbatim>\<open>or\<close> with the
  equality first, so the order of the tests cannot change the index.
\<close>

theorem depth_of_price_first_match:
  assumes "(if sd = Ask then sorted_asks (ensure_sorted s) else sorted_bids (ensure_sorted s))
             = Some ps"
    and "r = fst (depth_of_price s pr sd)"
  shows "r \<le> length ps \<and> (\<forall>j<r. \<not> rank_test pr sd (ps ! j)) \<and>
         (r < length ps \<longrightarrow> rank_test pr sd (ps ! r)) \<and>
         ((\<forall>p\<in>set ps. \<not> rank_test pr sd p) \<longrightarrow> r = length ps)"
proof -
  have ps: "ps = view_of s sd"
    using assms(1) by (cases sd) (simp_all add: ensure_sorted_Some)
  define t where "t = takeWhile (\<lambda>p. \<not> rank_test pr sd p) ps"
  have r: "r = length t"
    using assms(2) by (simp add: depth_of_price_eq depth_scan_takeWhile ps t_def)
  have le: "r \<le> length ps"
    unfolding r t_def by (rule length_takeWhile_le)
  have before: "\<forall>j<r. \<not> rank_test pr sd (ps ! j)"
  proof (intro allI impI)
    fix j assume "j < r"
    then have j: "j < length t" by (simp add: r)
    then have "t ! j \<in> set t" by simp
    then have "\<not> rank_test pr sd (t ! j)"
      unfolding t_def by (rule set_takeWhileD [THEN conjunct2])
    moreover have "t ! j = ps ! j"
      using j unfolding t_def by (rule takeWhile_nth)
    ultimately show "\<not> rank_test pr sd (ps ! j)" by simp
  qed
  have at: "r < length ps \<longrightarrow> rank_test pr sd (ps ! r)"
  proof
    assume "r < length ps"
    then have "length t < length ps" by (simp add: r)
    then have "\<not> \<not> rank_test pr sd (ps ! length t)"
      unfolding t_def by (rule nth_length_takeWhile)
    then show "rank_test pr sd (ps ! r)" by (simp add: r)
  qed
  have none: "(\<forall>p\<in>set ps. \<not> rank_test pr sd p) \<longrightarrow> r = length ps"
  proof
    assume "\<forall>p\<in>set ps. \<not> rank_test pr sd p"
    then have "t = ps"
      unfolding t_def by (simp add: takeWhile_eq_all_conv)
    then show "r = length ps" by (simp add: r)
  qed
  from le before at none show ?thesis by blast
qed

theorem depth_of_price_first_match_witness:
  "fst (depth_of_price scenario_A 102 Ask) = 1 \<and> \<not> rank_test 102 Ask 101 \<and>
   rank_test 102 Ask 102"
proof -
  have h1: "(if Ask = Ask then sorted_asks (ensure_sorted scenario_A)
             else sorted_bids (ensure_sorted scenario_A)) = Some [101, 102]"
    by (simp add: scenario_A_def process_snapshot_def LOBEventExtractor_init_def dict_of_def
        invalidate_sorted_def ensure_sorted_def keys_def Let_def)
  have h2: "(1::nat) = fst (depth_of_price scenario_A 102 Ask)"
    by (simp add: scenario_A_def process_snapshot_def LOBEventExtractor_init_def dict_of_def
        invalidate_sorted_def depth_of_price_def ensure_sorted_def keys_def isclose_def
        rel_tol_def abs_tol_def Let_def)
  show ?thesis
    using depth_of_price_first_match [OF h1 h2] h2 by simp
qed

section \<open>The loops of \<^verbatim>\<open>process_delta\<close>\<close>

lemma ask_update_split:
  "ask_update idx u (s, evs) = (ask_next idx u s, evs @ ask_emit idx u s)"
  by (cases u) (simp add: ask_update_def ask_next_def ask_emit_def Let_def)

lemma bid_update_split:
  "bid_update idx u (s, evs) = (bid_next idx u s, evs @ bid_emit idx u s)"
  by (cases u) (simp add: bid_update_def bid_next_def bid_emit_def Let_def)

lemma ask_next_eq:
  "ask_next idx (pr, vol) s =
     (ensure_sorted s)\<lparr>asks := (if vol = 0 then AList.delete pr (asks s)
                                 else AList.update pr vol (asks s))\<rparr>"
  by (simp add: ask_next_def ask_update_def Let_def depth_of_price_eq)

lemma bid_next_eq:
  "bid_next idx (pr, vol) s =
     (ensure_sorted s)\<lparr>bids := (if vol = 0 then AList.delete pr (bids s)
                                 else AList.update pr vol (bids s))\<rparr>"
  by (simp add: bid_next_def bid_update_def Let_def depth_of_price_eq)

lemma ask_emit_eq:
  "ask_emit idx (pr, vol) s =
     (if int (depth_scan pr Ask 0 (view_of s Ask)) < max_depth s then
        (if vol = 0 then
           [\<lparr>action = ''market_buy'', price = pr, volume = - (vol - dict_get (asks s) pr 0),
             depth = depth_scan pr Ask 0 (view_of s Ask), index = idx,
             mid_price = mid_price_of s, previous_vol = dict_get (asks s) pr 0,
             volume_change_normalized =
               (if dict_get (asks s) pr 0 > 0
                then (vol - dict_get (asks s) pr 0) / dict_get (asks s) pr 0 else 1)\<rparr>]
         else if vol - dict_get (asks s) pr 0 > 0 then
           [\<lparr>action = ''sell_limit_added'', price = pr, volume = vol - dict_get (asks s) pr 0,
             depth = depth_scan pr Ask 0 (view_of s Ask), index = idx,
             mid_price = mid_price_of s, previous_vol = dict_get (asks s) pr 0,
             volume_change_normalized =
               (if dict_get (asks s) pr 0 > 0
                then (vol - dict_get (asks s) pr 0) / dict_get (asks s) pr 0 else 1)\<rparr>]
         else if vol - dict_get (asks s) pr 0 < 0 then
           [\<lparr>action = ''sell_limit_canceled'', price = pr,
             volume = - (vol - dict_get (asks s) pr 0),
             depth = depth_scan pr Ask 0 (view_of s Ask), index = idx,
             mid_price = mid_price_of s, previous_vol = dict_get (asks s) pr 0,
             volume_change_normalized =
               (if dict_get (asks s) pr 0 > 0
                then - (vol - dict_get (asks s) pr 0) / dict_get (asks s) pr 0 else 1)\<rparr>]
         else [])
      else [])"
  by (simp add: ask_emit_def ask_update_def Let_def depth_of_price_eq)

lemma bid_emit_eq:
  "bid_emit idx (pr, vol) s =
     (if int (depth_scan pr Bid 0 (view_of s Bid)) < max_depth s then
        (if vol = 0 then
           [\<lparr>action = ''market_sell'', price = pr, volume = - (vol - dict_get (bids s) pr 0),
             depth = depth_scan pr Bid 0 (view_of s Bid), index = idx,
             mid_price = mid_price_of s, previous_vol = dict_get (bids s) pr 0,
             volume_change_normalized =
               (if dict_get (bids s) pr 0 > 0
                then (vol - dict_get (bids s) pr 0) / dict_get (bids s) pr 0 else 1)\<rparr>]
         else if vol - dict_get (bids s) pr 0 > 0 then
           [\<lparr>action = ''buy_limit_added'', price = pr, volume = vol - dict_get (bids s) pr 0,
             depth = depth_scan pr Bid 0 (view_of s Bid), index = idx,
             mid_price = mid_price_of s, previous_vol = dict_get (bids s) pr 0,
             volume_change_normalized =
               (if dict_get (bids s) pr 0 > 0
                then (vol - dict_get (bids s) pr 0) / dict_get (bids s) pr 0 else 1)\<rparr>]
         else if vol - dict_get (bids s) pr 0 < 0 then
           [\<lparr>action = ''buy_limit_canceled'', price = pr,
             volume = - (vol - dict_get (bids s) pr 0),
             depth = depth_scan pr Bid 0 (view_of s Bid), index = idx,
             mid_price = mid_price_of s, previous_vol = dict_get (bids s) pr 0,
             volume_change_normalized =
               (if dict_get (bids s) pr 0 > 0
                then - (vol - dict_get (bids s) pr 0) / dict_get (bids s) pr 0 else 1)\<rparr>]
         else [])
      else [])"
  by (simp add: bid_emit_def bid_update_def Let_def depth_of_price_eq)

lemma fold_split:
  assumes step: "\<And>u s evs. upd u (s, evs) = (nxt u s, evs @ emit u s)"
  shows "fold upd us (s, evs) =
     (fold nxt us s,
      evs @ concat (map (\<lambda>i. emit (us ! i) (fold nxt (take i us) s)) [0..<length us]))"
proof (induction us rule: rev_induct)
  case Nil
  show ?case by simp
next
  case (snoc u us)
  have pre: "map (\<lambda>i. emit ((us @ [u]) ! i) (fold nxt (take i (us @ [u])) s)) [0..<length us] =
        map (\<lambda>i. emit (us ! i) (fold nxt (take i us) s)) [0..<length us]"
    by (rule map_cong) (simp_all add: nth_append)
  have tk: "take (length us) (us @ [u]) = us"
    by simp
  have "fold upd (us @ [u]) (s, evs) = upd u (fold upd us (s, evs))"
    by simp
  also have "\<dots> = (nxt u (fold nxt us s),
       (evs @ concat (map (\<lambda>i. emit (us ! i) (fold nxt (take i us) s)) [0..<length us]))
         @ emit u (fold nxt us s))"
    by (simp only: snoc.IH step)
  also have "\<dots> = (fold nxt (us @ [u]) s,
      evs @ concat (map (\<lambda>i. emit ((us @ [u]) ! i) (fold nxt (take i (us @ [u])) s))
                     [0..<length (us @ [u])]))"
    by (simp del: take_append add: pre tk)
  finally show ?case .
qed

lemma fold_ask_update:
  "fold (ask_update idx) us (s, evs) =
     (fold (ask_next idx) us s,
      evs @ concat (map (\<lambda>i. ask_emit idx (us ! i) (fold (ask_next idx) (take i us) s))
                     [0..<length us]))"
  by (rule fold_split) (rule ask_update_split)

lemma fold_bid_update:
  "fold (bid_update idx) us (s, evs) =
     (fold (bid_next idx) us s,
      evs @ concat (map (\<lambda>i. bid_emit idx (us ! i) (fold (bid_next idx) (take i us) s))
                     [0..<length us]))"
  by (rule fold_split) (rule bid_update_split)

lemma ask_state_before_eq: "ask_state_before s a idx i = fold (ask_next idx) (take i a) s"
  by (simp add: ask_state_before_def fold_ask_update)

lemma bid_state_before_eq:
  "bid_state_before s a b idx i = fold (bid_next idx) (take i b) (fold (ask_next idx) a s)"
  by (simp add: bid_state_before_def fold_ask_update fold_bid_update)

lemma ask_emitted_eq: "ask_emitted s a idx i = ask_emit idx (a ! i) (ask_state_before s a idx i)"
  by (simp add: ask_emitted_def ask_emit_def)

lemma bid_emitted_eq:
  "bid_emitted s a b idx i = bid_emit idx (b ! i) (bid_state_before s a b idx i)"
  by (simp add: bid_emitted_def bid_emit_def)

lemma process_delta_events:
  "snd (process_delta s a b idx) =
     concat (map (ask_emitted s a idx) [0..<length a]) @
     concat (map (bid_emitted s a b idx) [0..<length b])"
proof -
  have ea: "ask_emitted s a idx = (\<lambda>i. ask_emit idx (a ! i) (fold (ask_next idx) (take i a) s))"
    by (rule ext) (simp add: ask_emitted_eq ask_state_before_eq)
  have eb: "bid_emitted s a b idx =
      (\<lambda>i. bid_emit idx (b ! i) (fold (bid_next idx) (take i b) (fold (ask_next idx) a s)))"
    by (rule ext) (simp add: bid_emitted_eq bid_state_before_eq)
  show ?thesis
    by (simp add: process_delta_def Let_def fold_ask_update fold_bid_update ea eb)
qed

lemma process_delta_state:
  "fst (process_delta s a b idx) =
     invalidate_sorted (fold (bid_next idx) b (fold (ask_next idx) a s))"
  by (simp add: process_delta_def Let_def fold_ask_update fold_bid_update)

lemma view_of_ask_next [simp]: "view_of (ask_next idx u s) sd = view_of s sd"
  by (cases u) (simp add: ask_next_eq view_of_def ensure_sorted_Some)

lemma view_of_bid_next [simp]: "view_of (bid_next idx u s) sd = view_of s sd"
  by (cases u) (simp add: bid_next_eq view_of_def ensure_sorted_Some)

lemma view_of_fold_ask [simp]: "view_of (fold (ask_next idx) us s) sd = view_of s sd"
  by (induction us arbitrary: s) simp_all

lemma view_of_fold_bid [simp]: "view_of (fold (bid_next idx) us s) sd = view_of s sd"
  by (induction us arbitrary: s) simp_all

lemma ask_next_fields [simp]:
  "max_depth (ask_next idx u s) = max_depth s"
  "bids (ask_next idx u s) = bids s"
  "last_mid_price (ask_next idx u s) = last_mid_price s"
  by (cases u, simp add: ask_next_eq)+

lemma bid_next_fields [simp]:
  "max_depth (bid_next idx u s) = max_depth s"
  "asks (bid_next idx u s) = asks s"
  "last_mid_price (bid_next idx u s) = last_mid_price s"
  by (cases u, simp add: bid_next_eq)+

lemma fold_ask_fields [simp]:
  "max_depth (fold (ask_next idx) us s) = max_depth s"
  "bids (fold (ask_next idx) us s) = bids s"
  "last_mid_price (fold (ask_next idx) us s) = last_mid_price s"
  by (induction us arbitrary: s) simp_all

lemma fold_bid_fields [simp]:
  "max_depth (fold (bid_next idx) us s) = max_depth s"
  "asks (fold (bid_next idx) us s) = asks s"
  "last_mid_price (fold (bid_next idx) us s) = last_mid_price s"
  by (induction us arbitrary: s) simp_all

lemma caches_ask_next:
  "sorted_asks (ask_next idx u s) = Some (view_of s Ask)"
  "sorted_bids (ask_next idx u s) = Some (view_of s Bid)"
  by (cases u, simp add: ask_next_eq ensure_sorted_Some)+

lemma caches_bid_next:
  "sorted_asks (bid_next idx u s) = Some (view_of s Ask)"
  "sorted_bids (bid_next idx u s) = Some (view_of s Bid)"
  by (cases u, simp add: bid_next_eq ensure_sorted_Some)+

lemma caches_fold_ask:
  "us \<noteq> [] \<Longrightarrow> sorted_asks (fold (ask_next idx) us s) = Some (view_of s Ask)"
  "us \<noteq> [] \<Longrightarrow> sorted_bids (fold (ask_next idx) us s) = Some (view_of s Bid)"
  by (induction us rule: rev_induct) (simp_all add: caches_ask_next)

lemma caches_fold_bid:
  "us \<noteq> [] \<Longrightarrow> sorted_asks (fold (bid_next idx) us s) = Some (view_of s Ask)"
  "us \<noteq> [] \<Longrightarrow> sorted_bids (fold (bid_next idx) us s) = Some (view_of s Bid)"
  by (induction us rule: rev_induct) (simp_all add: caches_bid_next)

section \<open>The book and the events of a batch\<close>

lemma asks_ask_next:
  "map_of (asks (ask_next idx (pr, vol) s)) =
     (if vol = 0 then (map_of (asks s))(pr := None) else (map_of (asks s))(pr \<mapsto> vol))"
  by (simp add: ask_next_eq delete_conv' update_conv')

lemma bids_bid_next:
  "map_of (bids (bid_next idx (pr, vol) s)) =
     (if vol = 0 then (map_of (bids s))(pr := None) else (map_of (bids s))(pr \<mapsto> vol))"
  by (simp add: bid_next_eq delete_conv' update_conv')

lemma map_of_fold_ask:
  "map_of (asks (fold (ask_next idx) us s)) pr =
     (case map_of (rev us) pr of
        None \<Rightarrow> map_of (asks s) pr
      | Some v \<Rightarrow> if v = 0 then None else Some v)"
proof (induction us rule: rev_induct)
  case Nil
  show ?case by simp
next
  case (snoc u us)
  obtain p v where u: "u = (p, v)" by (cases u)
  show ?case
    using snoc.IH by (simp add: u asks_ask_next)
qed

lemma map_of_fold_bid:
  "map_of (bids (fold (bid_next idx) us s)) pr =
     (case map_of (rev us) pr of
        None \<Rightarrow> map_of (bids s) pr
      | Some v \<Rightarrow> if v = 0 then None else Some v)"
proof (induction us rule: rev_induct)
  case Nil
  show ?case by simp
next
  case (snoc u us)
  obtain p v where u: "u = (p, v)" by (cases u)
  show ?case
    using snoc.IH by (simp add: u bids_bid_next)
qed

lemma dict_get_fold_ask:
  "dict_get (asks (fold (ask_next idx) us s)) pr 0 =
     (case map_of (rev us) pr of None \<Rightarrow> dict_get (asks s) pr 0 | Some v \<Rightarrow> v)"
  by (simp add: dict_get_def map_of_fold_ask split: option.splits)

lemma dict_get_fold_bid:
  "dict_get (bids (fold (bid_next idx) us s)) pr 0 =
     (case map_of (rev us) pr of None \<Rightarrow> dict_get (bids s) pr 0 | Some v \<Rightarrow> v)"
  by (simp add: dict_get_def map_of_fold_bid split: option.splits)

lemma ask_emit_props:
  assumes "e \<in> set (ask_emit idx (pr, vol) s)"
  shows "price e = pr" "index e = idx" "mid_price e = mid_price_of s"
    "previous_vol e = dict_get (asks s) pr 0"
    "depth e = depth_scan pr Ask 0 (view_of s Ask)"
    "int (depth e) < max_depth s"
    "action e \<in> {''market_buy'', ''sell_limit_added'', ''sell_limit_canceled''}"
  using assms by (auto simp: ask_emit_eq split: if_splits)

lemma bid_emit_props:
  assumes "e \<in> set (bid_emit idx (pr, vol) s)"
  shows "price e = pr" "index e = idx" "mid_price e = mid_price_of s"
    "previous_vol e = dict_get (bids s) pr 0"
    "depth e = depth_scan pr Bid 0 (view_of s Bid)"
    "int (depth e) < max_depth s"
    "action e \<in> {''market_sell'', ''buy_limit_added'', ''buy_limit_canceled''}"
  using assms by (auto simp: bid_emit_eq split: if_splits)

lemma ask_emit_length: "length (ask_emit idx u s) \<le> Suc 0"
  by (cases u) (simp add: ask_emit_eq)

lemma bid_emit_length: "length (bid_emit idx u s) \<le> Suc 0"
  by (cases u) (simp add: bid_emit_eq)

text \<open>
  C9. The list \<^verbatim>\<open>process_delta\<close> returns is the events of the ask updates, update by
  update in input order, followed by the events of the bid updates, update by update in
  input order. An update appends at most one event, which carries the price of the update
  and an action of its own side.
\<close>

theorem process_delta_event_order:
  "snd (process_delta s a b idx) =
     concat (map (ask_emitted s a idx) [0..<length a]) @
     concat (map (bid_emitted s a b idx) [0..<length b]) \<and>
   (\<forall>i<length a. length (ask_emitted s a idx i) \<le> 1 \<and>
      (\<forall>e\<in>set (ask_emitted s a idx i). price e = fst (a ! i) \<and>
         action e \<in> {''market_buy'', ''sell_limit_added'', ''sell_limit_canceled''})) \<and>
   (\<forall>i<length b. length (bid_emitted s a b idx i) \<le> 1 \<and>
      (\<forall>e\<in>set (bid_emitted s a b idx i). price e = fst (b ! i) \<and>
         action e \<in> {''market_sell'', ''buy_limit_added'', ''buy_limit_canceled''}))"
proof (intro conjI allI impI ballI)
  show "snd (process_delta s a b idx) =
     concat (map (ask_emitted s a idx) [0..<length a]) @
     concat (map (bid_emitted s a b idx) [0..<length b])"
    by (rule process_delta_events)
next
  fix i show "length (ask_emitted s a idx i) \<le> 1"
    by (simp add: ask_emitted_eq ask_emit_length)
next
  fix i show "length (bid_emitted s a b idx i) \<le> 1"
    by (simp add: bid_emitted_eq bid_emit_length)
next
  fix i e assume "e \<in> set (ask_emitted s a idx i)"
  then have e: "e \<in> set (ask_emit idx (fst (a ! i), snd (a ! i)) (ask_state_before s a idx i))"
    by (simp add: ask_emitted_eq)
  show "price e = fst (a ! i)" by (rule ask_emit_props(1) [OF e])
  show "action e \<in> {''market_buy'', ''sell_limit_added'', ''sell_limit_canceled''}"
    by (rule ask_emit_props(7) [OF e])
next
  fix i e assume "e \<in> set (bid_emitted s a b idx i)"
  then have e: "e \<in> set (bid_emit idx (fst (b ! i), snd (b ! i)) (bid_state_before s a b idx i))"
    by (simp add: bid_emitted_eq)
  show "price e = fst (b ! i)" by (rule bid_emit_props(1) [OF e])
  show "action e \<in> {''market_sell'', ''buy_limit_added'', ''buy_limit_canceled''}"
    by (rule bid_emit_props(7) [OF e])
qed


theorem process_delta_event_order_witness:
  "(1::nat) < length [(101, 0), (103, 2) :: rat \<times> rat] \<and>
   map price (ask_emitted scenario_A [(101, 0), (103, 2)] 1 1) = [103] \<and>
   map action (snd (process_delta scenario_A [(101, 0), (103, 2)] [(100, 3), (98, 1)] 1)) =
     [''market_buy'', ''sell_limit_added'', ''buy_limit_canceled'', ''buy_limit_added'']"
proof -
  have c: "map action (snd (process_delta scenario_A [(101, 0), (103, 2)] [(100, 3), (98, 1)] 1)) =
     [''market_buy'', ''sell_limit_added'', ''buy_limit_canceled'', ''buy_limit_added'']"
    by code_simp
  have d: "map price (ask_emitted scenario_A [(101, 0), (103, 2)] 1 1) = [103]"
    by code_simp
  show ?thesis
    using process_delta_event_order [of scenario_A "[(101, 0), (103, 2)]" "[(100, 3), (98, 1)]" 1]
      c d by simp
qed


text \<open>
  C1, as the code has it. The \<^verbatim>\<open>mid_price\<close> of an event is the mid price of the book as
  the update that emits it starts: after every earlier update of the batch, before the
  update's own change of the dictionary.
\<close>

theorem event_mid_price_read_before_mutation:
  "(\<forall>i<length a. \<forall>e\<in>set (ask_emitted s a idx i).
      mid_price e = mid_price_of (ask_state_before s a idx i)) \<and>
   (\<forall>i<length b. \<forall>e\<in>set (bid_emitted s a b idx i).
      mid_price e = mid_price_of (bid_state_before s a b idx i))"
proof (intro conjI allI impI ballI)
  fix i e assume "e \<in> set (ask_emitted s a idx i)"
  then have "e \<in> set (ask_emit idx (fst (a ! i), snd (a ! i)) (ask_state_before s a idx i))"
    by (simp add: ask_emitted_eq)
  then show "mid_price e = mid_price_of (ask_state_before s a idx i)"
    by (rule ask_emit_props(3))
next
  fix i e assume "e \<in> set (bid_emitted s a b idx i)"
  then have "e \<in> set (bid_emit idx (fst (b ! i), snd (b ! i)) (bid_state_before s a b idx i))"
    by (simp add: bid_emitted_eq)
  then show "mid_price e = mid_price_of (bid_state_before s a b idx i)"
    by (rule bid_emit_props(3))
qed

theorem event_mid_price_read_before_mutation_witness:
  "(0::nat) < length [(101, 0) :: rat \<times> rat] \<and>
   length (ask_emitted scenario_A [(101, 0)] 1 0) = 1 \<and>
   map mid_price (ask_emitted scenario_A [(101, 0)] 1 0) =
     [mid_price_of (ask_state_before scenario_A [(101, 0)] 1 0)]"
proof -
  have c: "length (ask_emitted scenario_A [(101, 0)] 1 0) = 1"
    by code_simp
  have "\<forall>e\<in>set (ask_emitted scenario_A [(101, 0)] 1 0).
      mid_price e = mid_price_of (ask_state_before scenario_A [(101, 0)] 1 0)"
    using event_mid_price_read_before_mutation [of "[(101, 0)]" scenario_A 1 "[]"] by simp
  with c show ?thesis
    by (cases "ask_emitted scenario_A [(101, 0)] 1 0") simp_all
qed

text \<open>
  C1 as stated fails on scenario B: removing the best ask 101 emits an event with mid price
  100.5, the value before the removal; after the removal the mid price is 101.
\<close>

theorem event_mid_price_post_mutation_counterexample:
  "map mid_price (snd (process_delta scenario_A [(101, 0)] [] 1)) = [Num (201 / 2)] \<and>
   mid_price_of (ask_state_before scenario_A [(101, 0)] 1 1) = Num 101 \<and>
   mid_price_of (fst (process_delta scenario_A [(101, 0)] [] 1)) = Num 101"
  by code_simp

text \<open>
  C2, as the code has it. The \<^verbatim>\<open>previous_vol\<close> of an event is the volume stored at the
  price as the update starts: the last new volume an earlier update of the same batch gave
  for that price on that side, and the volume of the start of the batch only when there
  is no such earlier update.
\<close>

theorem event_previous_vol_is_current_volume:
  "(\<forall>i<length a. \<forall>e\<in>set (ask_emitted s a idx i).
      previous_vol e = dict_get (asks (ask_state_before s a idx i)) (fst (a ! i)) 0) \<and>
   (\<forall>i<length b. \<forall>e\<in>set (bid_emitted s a b idx i).
      previous_vol e = dict_get (bids (bid_state_before s a b idx i)) (fst (b ! i)) 0) \<and>
   (\<forall>i<length a. dict_get (asks (ask_state_before s a idx i)) (fst (a ! i)) 0 =
      (case map_of (rev (take i a)) (fst (a ! i)) of
         None \<Rightarrow> dict_get (asks s) (fst (a ! i)) 0 | Some v \<Rightarrow> v)) \<and>
   (\<forall>i<length b. dict_get (bids (bid_state_before s a b idx i)) (fst (b ! i)) 0 =
      (case map_of (rev (take i b)) (fst (b ! i)) of
         None \<Rightarrow> dict_get (bids s) (fst (b ! i)) 0 | Some v \<Rightarrow> v))"
proof (intro conjI allI impI ballI)
  fix i e assume "e \<in> set (ask_emitted s a idx i)"
  then have "e \<in> set (ask_emit idx (fst (a ! i), snd (a ! i)) (ask_state_before s a idx i))"
    by (simp add: ask_emitted_eq)
  then show "previous_vol e = dict_get (asks (ask_state_before s a idx i)) (fst (a ! i)) 0"
    by (rule ask_emit_props(4))
next
  fix i e assume "e \<in> set (bid_emitted s a b idx i)"
  then have "e \<in> set (bid_emit idx (fst (b ! i), snd (b ! i)) (bid_state_before s a b idx i))"
    by (simp add: bid_emitted_eq)
  then show "previous_vol e = dict_get (bids (bid_state_before s a b idx i)) (fst (b ! i)) 0"
    by (rule bid_emit_props(4))
next
  fix i
  show "dict_get (asks (ask_state_before s a idx i)) (fst (a ! i)) 0 =
      (case map_of (rev (take i a)) (fst (a ! i)) of
         None \<Rightarrow> dict_get (asks s) (fst (a ! i)) 0 | Some v \<Rightarrow> v)"
    by (simp only: ask_state_before_eq dict_get_fold_ask)
next
  fix i
  show "dict_get (bids (bid_state_before s a b idx i)) (fst (b ! i)) 0 =
      (case map_of (rev (take i b)) (fst (b ! i)) of
         None \<Rightarrow> dict_get (bids s) (fst (b ! i)) 0 | Some v \<Rightarrow> v)"
    by (simp only: bid_state_before_eq dict_get_fold_bid fold_ask_fields)
qed

theorem event_previous_vol_is_current_volume_witness:
  "(1::nat) < length [(101, 3), (101, 7) :: rat \<times> rat] \<and>
   length (ask_emitted scenario_A [(101, 3), (101, 7)] 1 1) = 1 \<and>
   map previous_vol (ask_emitted scenario_A [(101, 3), (101, 7)] 1 1) = [3]"
proof -
  have c: "length (ask_emitted scenario_A [(101, 3), (101, 7)] 1 1) = 1"
    by code_simp
  have d: "dict_get (asks (ask_state_before scenario_A [(101, 3), (101, 7)] 1 1)) 101 0 = 3"
    by code_simp
  have "\<forall>i<length [(101, 3), (101, 7) :: rat \<times> rat].
      \<forall>e\<in>set (ask_emitted scenario_A [(101, 3), (101, 7)] 1 i).
      previous_vol e =
      dict_get (asks (ask_state_before scenario_A [(101, 3), (101, 7)] 1 i))
        (fst ([(101, 3), (101, 7) :: rat \<times> rat] ! i)) 0"
    using event_previous_vol_is_current_volume
      [of "[(101, 3), (101, 7)]" scenario_A 1 "[]"] by (rule conjunct1)
  then have "(1::nat) < length [(101, 3), (101, 7) :: rat \<times> rat] \<longrightarrow>
      (\<forall>e\<in>set (ask_emitted scenario_A [(101, 3), (101, 7)] 1 1).
      previous_vol e =
      dict_get (asks (ask_state_before scenario_A [(101, 3), (101, 7)] 1 1))
        (fst ([(101, 3), (101, 7) :: rat \<times> rat] ! 1)) 0)"
    by (rule spec)
  then have "\<forall>e\<in>set (ask_emitted scenario_A [(101, 3), (101, 7)] 1 1).
      previous_vol e =
      dict_get (asks (ask_state_before scenario_A [(101, 3), (101, 7)] 1 1)) 101 0"
    by simp
  with c d show ?thesis
    by (cases "ask_emitted scenario_A [(101, 3), (101, 7)] 1 1") simp_all
qed

text \<open>
  C2 as stated fails when a price occurs twice on one side: with 5 units stored at 101, the
  ask updates (101, 3) and (101, 7) record the previous volumes 5 and 3, not 5 and 5.
\<close>

theorem event_previous_vol_pre_batch_counterexample:
  "map previous_vol (snd (process_delta scenario_A [(101, 3), (101, 7)] [] 1)) = [5, 3] \<and>
   dict_get (asks scenario_A) 101 0 = 5"
  by code_simp

section \<open>Depth gate, cached views and removals of absent levels\<close>

lemma ask_state_before_Suc:
  "i < length a \<Longrightarrow>
   ask_state_before s a idx (Suc i) = ask_next idx (a ! i) (ask_state_before s a idx i)"
  by (simp add: ask_state_before_eq take_Suc_conv_app_nth)

lemma bid_state_before_Suc:
  "i < length b \<Longrightarrow>
   bid_state_before s a b idx (Suc i) = bid_next idx (b ! i) (bid_state_before s a b idx i)"
  by (simp add: bid_state_before_eq take_Suc_conv_app_nth)

lemma state_before_fields [simp]:
  "max_depth (ask_state_before s a idx i) = max_depth s"
  "max_depth (bid_state_before s a b idx i) = max_depth s"
  "view_of (ask_state_before s a idx i) sd = view_of s sd"
  "view_of (bid_state_before s a b idx i) sd = view_of s sd"
  by (simp_all add: ask_state_before_eq bid_state_before_eq)

lemma map_of_None_notin: "map_of al k = None \<Longrightarrow> k \<notin> fst ` set al"
  by (simp add: map_of_eq_None_iff)

lemma dict_get_absent: "map_of al k = None \<Longrightarrow> dict_get al k d = d"
  by (simp add: dict_get_def)

text \<open>
  C10. An update with new volume 0 for a price that is not stored on its side as the update
  starts, at a depth below \<^verbatim>\<open>max_depth\<close>, still appends one event: \<^verbatim>\<open>market_buy\<close> on
  the ask side, \<^verbatim>\<open>market_sell\<close> on the bid side, with volume 0, previous volume 0 and
  normalized change 1; both dictionaries are left as they were.
\<close>

theorem absent_level_removal_emits_degenerate_event:
  "(\<forall>i<length a.
      snd (a ! i) = 0 \<and> map_of (asks (ask_state_before s a idx i)) (fst (a ! i)) = None \<and>
      int (fst (depth_of_price (ask_state_before s a idx i) (fst (a ! i)) Ask)) < max_depth s
      \<longrightarrow>
      ask_emitted s a idx i =
        [\<lparr>action = ''market_buy'', price = fst (a ! i), volume = 0,
          depth = fst (depth_of_price (ask_state_before s a idx i) (fst (a ! i)) Ask),
          index = idx, mid_price = mid_price_of (ask_state_before s a idx i),
          previous_vol = 0, volume_change_normalized = 1\<rparr>] \<and>
      asks (ask_state_before s a idx (Suc i)) = asks (ask_state_before s a idx i) \<and>
      bids (ask_state_before s a idx (Suc i)) = bids (ask_state_before s a idx i)) \<and>
   (\<forall>i<length b.
      snd (b ! i) = 0 \<and> map_of (bids (bid_state_before s a b idx i)) (fst (b ! i)) = None \<and>
      int (fst (depth_of_price (bid_state_before s a b idx i) (fst (b ! i)) Bid)) < max_depth s
      \<longrightarrow>
      bid_emitted s a b idx i =
        [\<lparr>action = ''market_sell'', price = fst (b ! i), volume = 0,
          depth = fst (depth_of_price (bid_state_before s a b idx i) (fst (b ! i)) Bid),
          index = idx, mid_price = mid_price_of (bid_state_before s a b idx i),
          previous_vol = 0, volume_change_normalized = 1\<rparr>] \<and>
      asks (bid_state_before s a b idx (Suc i)) = asks (bid_state_before s a b idx i) \<and>
      bids (bid_state_before s a b idx (Suc i)) = bids (bid_state_before s a b idx i))"
proof (intro conjI allI impI)
  fix i
  assume i: "i < length a"
    and h: "snd (a ! i) = 0 \<and> map_of (asks (ask_state_before s a idx i)) (fst (a ! i)) = None \<and>
      int (fst (depth_of_price (ask_state_before s a idx i) (fst (a ! i)) Ask)) < max_depth s"
  define S where "S = ask_state_before s a idx i"
  obtain pr where u: "a ! i = (pr, 0)"
    using h by (cases "a ! i") simp
  have absent: "map_of (asks S) pr = None"
    using h by (simp add: u S_def)
  have dep: "int (depth_scan pr Ask 0 (view_of S Ask)) < max_depth S"
    using h by (simp add: u S_def depth_of_price_eq)
  show "ask_emitted s a idx i =
        [\<lparr>action = ''market_buy'', price = fst (a ! i), volume = 0,
          depth = fst (depth_of_price (ask_state_before s a idx i) (fst (a ! i)) Ask),
          index = idx, mid_price = mid_price_of (ask_state_before s a idx i),
          previous_vol = 0, volume_change_normalized = 1\<rparr>]"
    using dep by (simp add: ask_emitted_eq u S_def [symmetric] ask_emit_eq
        dict_get_absent [OF absent] depth_of_price_eq)
  have nxt: "ask_state_before s a idx (Suc i) = ask_next idx (pr, 0) S"
    using i by (simp add: ask_state_before_Suc u S_def)
  show "asks (ask_state_before s a idx (Suc i)) = asks (ask_state_before s a idx i)"
    using map_of_None_notin [OF absent] by (simp add: nxt ask_next_eq S_def [symmetric])
  show "bids (ask_state_before s a idx (Suc i)) = bids (ask_state_before s a idx i)"
    by (simp add: nxt S_def [symmetric])
next
  fix i
  assume i: "i < length b"
    and h: "snd (b ! i) = 0 \<and> map_of (bids (bid_state_before s a b idx i)) (fst (b ! i)) = None \<and>
      int (fst (depth_of_price (bid_state_before s a b idx i) (fst (b ! i)) Bid)) < max_depth s"
  define S where "S = bid_state_before s a b idx i"
  obtain pr where u: "b ! i = (pr, 0)"
    using h by (cases "b ! i") simp
  have absent: "map_of (bids S) pr = None"
    using h by (simp add: u S_def)
  have dep: "int (depth_scan pr Bid 0 (view_of S Bid)) < max_depth S"
    using h by (simp add: u S_def depth_of_price_eq)
  show "bid_emitted s a b idx i =
        [\<lparr>action = ''market_sell'', price = fst (b ! i), volume = 0,
          depth = fst (depth_of_price (bid_state_before s a b idx i) (fst (b ! i)) Bid),
          index = idx, mid_price = mid_price_of (bid_state_before s a b idx i),
          previous_vol = 0, volume_change_normalized = 1\<rparr>]"
    using dep by (simp add: bid_emitted_eq u S_def [symmetric] bid_emit_eq
        dict_get_absent [OF absent] depth_of_price_eq)
  have nxt: "bid_state_before s a b idx (Suc i) = bid_next idx (pr, 0) S"
    using i by (simp add: bid_state_before_Suc u S_def)
  show "bids (bid_state_before s a b idx (Suc i)) = bids (bid_state_before s a b idx i)"
    using map_of_None_notin [OF absent] by (simp add: nxt bid_next_eq S_def [symmetric])
  show "asks (bid_state_before s a b idx (Suc i)) = asks (bid_state_before s a b idx i)"
    by (simp add: nxt S_def [symmetric])
qed

theorem absent_level_removal_emits_degenerate_event_witness:
  "snd ([(105, 0) :: rat \<times> rat] ! 0) = 0 \<and>
   map_of (asks (ask_state_before scenario_A [(105, 0)] 7 0)) 105 = None \<and>
   int (fst (depth_of_price (ask_state_before scenario_A [(105, 0)] 7 0) 105 Ask))
     < max_depth scenario_A \<and>
   ask_emitted scenario_A [(105, 0)] 7 0 =
     [\<lparr>action = ''market_buy'', price = 105, volume = 0, depth = 2, index = 7,
       mid_price = Num (201 / 2), previous_vol = 0, volume_change_normalized = 1\<rparr>] \<and>
   asks (ask_state_before scenario_A [(105, 0)] 7 1) = [(101, 5), (102, 5)]"
proof -
  have h: "snd ([(105, 0) :: rat \<times> rat] ! 0) = 0 \<and>
      map_of (asks (ask_state_before scenario_A [(105, 0)] 7 0))
        (fst ([(105, 0) :: rat \<times> rat] ! 0)) = None \<and>
      int (fst (depth_of_price (ask_state_before scenario_A [(105, 0)] 7 0)
        (fst ([(105, 0) :: rat \<times> rat] ! 0)) Ask)) < max_depth scenario_A"
    by code_simp
  have d: "fst (depth_of_price (ask_state_before scenario_A [(105, 0)] 7 0) 105 Ask) = 2"
    by code_simp
  have m: "mid_price_of (ask_state_before scenario_A [(105, 0)] 7 0) = Num (201 / 2)"
    by code_simp
  have b: "asks (ask_state_before scenario_A [(105, 0)] 7 0) = [(101, 5), (102, 5)]"
    by code_simp
  have "\<forall>i<length [(105, 0) :: rat \<times> rat].
      snd ([(105, 0) :: rat \<times> rat] ! i) = 0 \<and>
      map_of (asks (ask_state_before scenario_A [(105, 0)] 7 i))
        (fst ([(105, 0) :: rat \<times> rat] ! i)) = None \<and>
      int (fst (depth_of_price (ask_state_before scenario_A [(105, 0)] 7 i)
        (fst ([(105, 0) :: rat \<times> rat] ! i)) Ask)) < max_depth scenario_A
      \<longrightarrow>
      ask_emitted scenario_A [(105, 0)] 7 i =
        [\<lparr>action = ''market_buy'', price = fst ([(105, 0) :: rat \<times> rat] ! i), volume = 0,
          depth = fst (depth_of_price (ask_state_before scenario_A [(105, 0)] 7 i)
            (fst ([(105, 0) :: rat \<times> rat] ! i)) Ask),
          index = 7, mid_price = mid_price_of (ask_state_before scenario_A [(105, 0)] 7 i),
          previous_vol = 0, volume_change_normalized = 1\<rparr>] \<and>
      asks (ask_state_before scenario_A [(105, 0)] 7 (Suc i)) =
        asks (ask_state_before scenario_A [(105, 0)] 7 i) \<and>
      bids (ask_state_before scenario_A [(105, 0)] 7 (Suc i)) =
        bids (ask_state_before scenario_A [(105, 0)] 7 i)"
    using absent_level_removal_emits_degenerate_event [of "[(105, 0)]" scenario_A 7 "[]"]
    by (rule conjunct1)
  then have "ask_emitted scenario_A [(105, 0)] 7 0 =
        [\<lparr>action = ''market_buy'', price = fst ([(105, 0) :: rat \<times> rat] ! 0), volume = 0,
          depth = fst (depth_of_price (ask_state_before scenario_A [(105, 0)] 7 0)
            (fst ([(105, 0) :: rat \<times> rat] ! 0)) Ask),
          index = 7, mid_price = mid_price_of (ask_state_before scenario_A [(105, 0)] 7 0),
          previous_vol = 0, volume_change_normalized = 1\<rparr>] \<and>
      asks (ask_state_before scenario_A [(105, 0)] 7 (Suc 0)) =
        asks (ask_state_before scenario_A [(105, 0)] 7 0) \<and>
      bids (ask_state_before scenario_A [(105, 0)] 7 (Suc 0)) =
        bids (ask_state_before scenario_A [(105, 0)] 7 0)"
    using h by simp
  with h d m b show ?thesis by simp
qed

lemma fresh_view_of:
  "sorted_asks s = None \<Longrightarrow> view_of s Ask = sort (keys (asks s))"
  "sorted_bids s = None \<Longrightarrow> view_of s Bid = rev (sort (keys (bids s)))"
  by (simp_all add: view_of_def)

lemma fresh_pre_batch_depth:
  "sorted_asks s = None \<Longrightarrow> sorted_bids s = None \<Longrightarrow>
   depth_scan pr sd 0 (view_of s sd) = pre_batch_depth s sd pr"
  by (cases sd) (simp_all add: pre_batch_depth_def fresh_view_of)

lemma public_operations_leave_no_cache:
  "sorted_asks (LOBEventExtractor_init md) = None"
  "sorted_bids (LOBEventExtractor_init md) = None"
  "sorted_asks (process_snapshot s a b) = None"
  "sorted_bids (process_snapshot s a b) = None"
  "sorted_asks (fst (process_delta s a b idx)) = None"
  "sorted_bids (fst (process_delta s a b idx)) = None"
  by (simp_all add: LOBEventExtractor_init_def process_snapshot_def process_delta_state
      invalidate_sorted_def)

lemma process_delta_book:
  "asks (fst (process_delta s a b idx)) = asks (fold (ask_next idx) a s)"
  "bids (fst (process_delta s a b idx)) = bids (fold (bid_next idx) b (fold (ask_next idx) a s))"
  by (simp_all add: process_delta_state invalidate_sorted_def)

lemma ask_emit_gated:
  "\<not> int (depth_scan (fst u) Ask 0 (view_of s Ask)) < max_depth s \<Longrightarrow>
   ask_emit idx u s = []"
  by (cases u) (simp add: ask_emit_eq)

lemma bid_emit_gated:
  "\<not> int (depth_scan (fst u) Bid 0 (view_of s Bid)) < max_depth s \<Longrightarrow>
   bid_emit idx u s = []"
  by (cases u) (simp add: bid_emit_eq)

text \<open>
  C6. In a batch that starts with no cached lists (as after every public operation), an
  update whose depth before the batch is not below \<^verbatim>\<open>max_depth\<close> appends no event; and
  for every price a side of the batch mentions, the volume stored after the batch (0 when
  the price is absent) is the last new volume the batch gave for it on that side.
\<close>

theorem depth_gate_suppresses_event_not_mutation:
  assumes "sorted_asks s = None" and "sorted_bids s = None"
  shows "(\<forall>i<length a. max_depth s \<le> int (pre_batch_depth s Ask (fst (a ! i))) \<longrightarrow>
            ask_emitted s a idx i = []) \<and>
         (\<forall>i<length b. max_depth s \<le> int (pre_batch_depth s Bid (fst (b ! i))) \<longrightarrow>
            bid_emitted s a b idx i = []) \<and>
         (\<forall>pr v. map_of (rev a) pr = Some v \<longrightarrow>
            dict_get (asks (fst (process_delta s a b idx))) pr 0 = v) \<and>
         (\<forall>pr v. map_of (rev b) pr = Some v \<longrightarrow>
            dict_get (bids (fst (process_delta s a b idx))) pr 0 = v)"
proof (intro conjI allI impI)
  fix i assume "max_depth s \<le> int (pre_batch_depth s Ask (fst (a ! i)))"
  then have "\<not> int (depth_scan (fst (a ! i)) Ask 0 (view_of s Ask)) < max_depth s"
    by (simp add: fresh_pre_batch_depth [OF assms])
  then have "ask_emit idx (a ! i) (ask_state_before s a idx i) = []"
    by (simp add: ask_emit_gated)
  then show "ask_emitted s a idx i = []"
    by (simp add: ask_emitted_eq)
next
  fix i assume "max_depth s \<le> int (pre_batch_depth s Bid (fst (b ! i)))"
  then have "\<not> int (depth_scan (fst (b ! i)) Bid 0 (view_of s Bid)) < max_depth s"
    by (simp add: fresh_pre_batch_depth [OF assms])
  then have "bid_emit idx (b ! i) (bid_state_before s a b idx i) = []"
    by (simp add: bid_emit_gated)
  then show "bid_emitted s a b idx i = []"
    by (simp add: bid_emitted_eq)
next
  fix pr v assume "map_of (rev a) pr = Some v"
  then show "dict_get (asks (fst (process_delta s a b idx))) pr 0 = v"
    by (simp add: process_delta_book dict_get_fold_ask)
next
  fix pr v assume "map_of (rev b) pr = Some v"
  then show "dict_get (bids (fst (process_delta s a b idx))) pr 0 = v"
    by (simp add: process_delta_book dict_get_fold_bid)
qed

theorem depth_gate_suppresses_event_not_mutation_witness:
  "sorted_asks scenario_shallow = None \<and> sorted_bids scenario_shallow = None \<and>
   max_depth scenario_shallow \<le> int (pre_batch_depth scenario_shallow Ask 102) \<and>
   map_of (rev [(102, 9) :: rat \<times> rat]) 102 = Some 9 \<and>
   ask_emitted scenario_shallow [(102, 9)] 3 0 = [] \<and>
   dict_get (asks (fst (process_delta scenario_shallow [(102, 9)] [] 3))) 102 0 = 9"
proof -
  have h1: "sorted_asks scenario_shallow = None"
    by (simp add: scenario_shallow_def process_snapshot_def invalidate_sorted_def)
  have h2: "sorted_bids scenario_shallow = None"
    by (simp add: scenario_shallow_def process_snapshot_def invalidate_sorted_def)
  have h3: "max_depth scenario_shallow \<le> int (pre_batch_depth scenario_shallow Ask 102)"
    by code_simp
  have h4: "map_of (rev [(102, 9) :: rat \<times> rat]) 102 = Some 9"
    by simp
  note t = depth_gate_suppresses_event_not_mutation [OF h1 h2, of "[(102, 9)]" 3 "[]"]
  have "ask_emitted scenario_shallow [(102, 9)] 3 0 = []"
    using t h3 by simp
  moreover have "dict_get (asks (fst (process_delta scenario_shallow [(102, 9)] [] 3))) 102 0 = 9"
    using t h4 by blast
  ultimately show ?thesis
    using h1 h2 h3 h4 by blast
qed

text \<open>
  C7. In a batch that starts with no cached lists, the depth computed for every update, on
  either side, is its rank in the sorted list of the dictionary as the batch started; the
  caches hold exactly those two lists from the first update on, whatever the updates did to
  the dictionaries, and both are dropped when the batch returns.
\<close>

theorem batch_ranks_against_pre_batch_views:
  assumes "sorted_asks s = None" and "sorted_bids s = None"
  shows "(\<forall>i<length a. fst (depth_of_price (ask_state_before s a idx i) (fst (a ! i)) Ask) =
            pre_batch_depth s Ask (fst (a ! i))) \<and>
         (\<forall>i<length b. fst (depth_of_price (bid_state_before s a b idx i) (fst (b ! i)) Bid) =
            pre_batch_depth s Bid (fst (b ! i))) \<and>
         (\<forall>i<length a. \<forall>e\<in>set (ask_emitted s a idx i).
            depth e = pre_batch_depth s Ask (fst (a ! i))) \<and>
         (\<forall>i<length b. \<forall>e\<in>set (bid_emitted s a b idx i).
            depth e = pre_batch_depth s Bid (fst (b ! i))) \<and>
         (\<forall>i\<le>length a. 0 < i \<longrightarrow>
            sorted_asks (ask_state_before s a idx i) = Some (sort (keys (asks s))) \<and>
            sorted_bids (ask_state_before s a idx i) = Some (rev (sort (keys (bids s))))) \<and>
         (\<forall>i\<le>length b. 0 < i \<or> a \<noteq> [] \<longrightarrow>
            sorted_asks (bid_state_before s a b idx i) = Some (sort (keys (asks s))) \<and>
            sorted_bids (bid_state_before s a b idx i) = Some (rev (sort (keys (bids s))))) \<and>
         sorted_asks (fst (process_delta s a b idx)) = None \<and>
         sorted_bids (fst (process_delta s a b idx)) = None"
proof (intro conjI allI impI ballI)
  fix i
  show "fst (depth_of_price (ask_state_before s a idx i) (fst (a ! i)) Ask) =
            pre_batch_depth s Ask (fst (a ! i))"
    by (simp add: depth_of_price_eq fresh_pre_batch_depth [OF assms])
  show "fst (depth_of_price (bid_state_before s a b idx i) (fst (b ! i)) Bid) =
            pre_batch_depth s Bid (fst (b ! i))"
    by (simp add: depth_of_price_eq fresh_pre_batch_depth [OF assms])
next
  fix i e assume "e \<in> set (ask_emitted s a idx i)"
  then have "e \<in> set (ask_emit idx (fst (a ! i), snd (a ! i)) (ask_state_before s a idx i))"
    by (simp add: ask_emitted_eq)
  then have "depth e = depth_scan (fst (a ! i)) Ask 0 (view_of (ask_state_before s a idx i) Ask)"
    by (rule ask_emit_props(5))
  then show "depth e = pre_batch_depth s Ask (fst (a ! i))"
    by (simp add: fresh_pre_batch_depth [OF assms])
next
  fix i e assume "e \<in> set (bid_emitted s a b idx i)"
  then have "e \<in> set (bid_emit idx (fst (b ! i), snd (b ! i)) (bid_state_before s a b idx i))"
    by (simp add: bid_emitted_eq)
  then have "depth e = depth_scan (fst (b ! i)) Bid 0 (view_of (bid_state_before s a b idx i) Bid)"
    by (rule bid_emit_props(5))
  then show "depth e = pre_batch_depth s Bid (fst (b ! i))"
    by (simp add: fresh_pre_batch_depth [OF assms])
next
  fix i assume "i \<le> length a" and "0 < i"
  then have ne: "take i a \<noteq> []" by auto
  show "sorted_asks (ask_state_before s a idx i) = Some (sort (keys (asks s)))"
    by (simp add: ask_state_before_eq caches_fold_ask [OF ne] fresh_view_of assms)
  show "sorted_bids (ask_state_before s a idx i) = Some (rev (sort (keys (bids s))))"
    by (simp add: ask_state_before_eq caches_fold_ask [OF ne] fresh_view_of assms)
next
  fix i assume i: "i \<le> length b" and d: "0 < i \<or> a \<noteq> []"
  have "sorted_asks (bid_state_before s a b idx i) = Some (view_of s Ask) \<and>
        sorted_bids (bid_state_before s a b idx i) = Some (view_of s Bid)"
  proof (cases "take i b = []")
    case True
    then have ne: "a \<noteq> []" using i d by auto
    have "bid_state_before s a b idx i = fold (ask_next idx) a s"
      by (simp add: bid_state_before_eq True)
    then show ?thesis
      by (simp add: caches_fold_ask [OF ne])
  next
    case False
    then show ?thesis
      by (simp add: bid_state_before_eq caches_fold_bid)
  qed
  then show "sorted_asks (bid_state_before s a b idx i) = Some (sort (keys (asks s)))"
    and "sorted_bids (bid_state_before s a b idx i) = Some (rev (sort (keys (bids s))))"
    by (simp_all add: fresh_view_of assms)
next
  show "sorted_asks (fst (process_delta s a b idx)) = None"
    by (rule public_operations_leave_no_cache)
  show "sorted_bids (fst (process_delta s a b idx)) = None"
    by (rule public_operations_leave_no_cache)
qed

theorem batch_ranks_against_pre_batch_views_witness:
  "sorted_asks scenario_A = None \<and> sorted_bids scenario_A = None \<and>
   asks (ask_state_before scenario_A [(101, 0), (103, 2)] 1 1) = [(102, 5)] \<and>
   pre_batch_depth scenario_A Ask 103 = 2 \<and>
   fst (depth_of_price (ask_state_before scenario_A [(101, 0), (103, 2)] 1 1) 103 Ask) = 2"
proof -
  have h1: "sorted_asks scenario_A = None"
    by (simp add: scenario_A_def process_snapshot_def invalidate_sorted_def)
  have h2: "sorted_bids scenario_A = None"
    by (simp add: scenario_A_def process_snapshot_def invalidate_sorted_def)
  have b: "asks (ask_state_before scenario_A [(101, 0), (103, 2)] 1 1) = [(102, 5)]"
    by code_simp
  have p: "pre_batch_depth scenario_A Ask 103 = 2"
    by code_simp
  have "\<forall>i<length [(101, 0), (103, 2) :: rat \<times> rat].
      fst (depth_of_price (ask_state_before scenario_A [(101, 0), (103, 2)] 1 i)
        (fst ([(101, 0), (103, 2) :: rat \<times> rat] ! i)) Ask) =
      pre_batch_depth scenario_A Ask (fst ([(101, 0), (103, 2) :: rat \<times> rat] ! i))"
    using batch_ranks_against_pre_batch_views [OF h1 h2, of "[(101, 0), (103, 2)]" 1 "[]"]
    by (rule conjunct1)
  then have "(1::nat) < length [(101, 0), (103, 2) :: rat \<times> rat] \<longrightarrow>
      fst (depth_of_price (ask_state_before scenario_A [(101, 0), (103, 2)] 1 1)
        (fst ([(101, 0), (103, 2) :: rat \<times> rat] ! 1)) Ask) =
      pre_batch_depth scenario_A Ask (fst ([(101, 0), (103, 2) :: rat \<times> rat] ! 1))"
    by (rule spec)
  then have "fst (depth_of_price (ask_state_before scenario_A [(101, 0), (103, 2)] 1 1) 103 Ask)
      = pre_batch_depth scenario_A Ask 103"
    by simp
  with h1 h2 b p show ?thesis by simp
qed

section \<open>Zero-volume levels\<close>

lemma set_update_subset: "set (AList.update k v al) \<subseteq> insert (k, v) (set al)"
  by (induction al) auto

lemma set_delete_subset: "set (AList.delete k al) \<subseteq> set al"
  by (induction al) auto

lemma zero_free_update:
  "v \<noteq> 0 \<Longrightarrow> 0 \<notin> snd ` set al \<Longrightarrow> 0 \<notin> snd ` set (AList.update k v al)"
  using set_update_subset [of k v al] by force

lemma zero_free_delete: "0 \<notin> snd ` set al \<Longrightarrow> 0 \<notin> snd ` set (AList.delete k al)"
  using set_delete_subset [of k al] by force

lemma zero_free_ask_next:
  "0 \<notin> snd ` set (asks s) \<Longrightarrow> 0 \<notin> snd ` set (asks (ask_next idx u s))"
  by (cases u) (simp add: ask_next_eq zero_free_update zero_free_delete)

lemma zero_free_bid_next:
  "0 \<notin> snd ` set (bids s) \<Longrightarrow> 0 \<notin> snd ` set (bids (bid_next idx u s))"
  by (cases u) (simp add: bid_next_eq zero_free_update zero_free_delete)

lemma zero_free_fold_ask:
  "0 \<notin> snd ` set (asks s) \<Longrightarrow> 0 \<notin> snd ` set (asks (fold (ask_next idx) us s))"
  by (induction us arbitrary: s) (simp_all add: zero_free_ask_next)

lemma zero_free_fold_bid:
  "0 \<notin> snd ` set (bids s) \<Longrightarrow> 0 \<notin> snd ` set (bids (fold (bid_next idx) us s))"
  by (induction us arbitrary: s) (simp_all add: zero_free_bid_next)

lemma map_of_fold_update:
  "map_of (fold (\<lambda>pv d. AList.update (fst pv) (snd pv) d) xs d0) k =
     (case map_of (rev xs) k of None \<Rightarrow> map_of d0 k | Some v \<Rightarrow> Some v)"
proof (induction xs rule: rev_induct)
  case Nil
  show ?case by simp
next
  case (snoc x xs)
  show ?case
    using snoc.IH by (cases x) (simp add: update_conv')
qed

lemma map_of_dict_of: "map_of (dict_of xs) = map_of (rev xs)"
  by (rule ext) (simp add: dict_of_def map_of_fold_update split: option.splits)

lemma set_fold_update:
  "set (fold (\<lambda>pv d. AList.update (fst pv) (snd pv) d) xs d0) \<subseteq> set xs \<union> set d0"
proof (induction xs arbitrary: d0)
  case Nil
  show ?case by simp
next
  case (Cons x xs)
  have "set (AList.update (fst x) (snd x) d0) \<subseteq> insert x (set d0)"
    using set_update_subset [of "fst x" "snd x" d0] by simp
  with Cons.IH [of "AList.update (fst x) (snd x) d0"] show ?case
    by auto
qed

lemma set_dict_of: "set (dict_of xs) \<subseteq> set xs"
  using set_fold_update [of xs "[]"] by (simp add: dict_of_def)

lemma process_snapshot_book:
  "asks (process_snapshot s a b) = dict_of a"
  "bids (process_snapshot s a b) = dict_of b"
  by (simp_all add: process_snapshot_def invalidate_sorted_def)

text \<open>
  C4, as the code has it. \<^verbatim>\<open>process_delta\<close> keeps a book without zero-volume levels
  without them, and never leaves volume 0 at a price it updates. \<^verbatim>\<open>process_snapshot\<close>
  stores the volumes it is given, the last pair of a price winning, so the book after a
  snapshot has no zero-volume level when the snapshot lists none. A new extractor has none.
\<close>

theorem zero_levels_only_from_snapshots:
  "(no_zero_level s \<longrightarrow> no_zero_level (fst (process_delta s a b idx))) \<and>
   (\<forall>pr\<in>fst ` set a. map_of (asks (fst (process_delta s a b idx))) pr \<noteq> Some 0) \<and>
   (\<forall>pr\<in>fst ` set b. map_of (bids (fst (process_delta s a b idx))) pr \<noteq> Some 0) \<and>
   map_of (asks (process_snapshot s a b)) = map_of (rev a) \<and>
   map_of (bids (process_snapshot s a b)) = map_of (rev b) \<and>
   (0 \<notin> snd ` set a \<and> 0 \<notin> snd ` set b \<longrightarrow> no_zero_level (process_snapshot s a b)) \<and>
   no_zero_level (LOBEventExtractor_init md)"
proof (intro conjI impI ballI)
  assume "no_zero_level s"
  then show "no_zero_level (fst (process_delta s a b idx))"
    by (simp add: no_zero_level_def process_delta_book zero_free_fold_ask zero_free_fold_bid)
next
  fix pr assume "pr \<in> fst ` set a"
  then have "pr \<in> fst ` set (rev a)" by simp
  then obtain v where "map_of (rev a) pr = Some v"
    by (metis map_of_eq_None_iff not_Some_eq)
  then show "map_of (asks (fst (process_delta s a b idx))) pr \<noteq> Some 0"
    by (simp add: process_delta_book map_of_fold_ask)
next
  fix pr assume "pr \<in> fst ` set b"
  then have "pr \<in> fst ` set (rev b)" by simp
  then obtain v where "map_of (rev b) pr = Some v"
    by (metis map_of_eq_None_iff not_Some_eq)
  then show "map_of (bids (fst (process_delta s a b idx))) pr \<noteq> Some 0"
    by (simp add: process_delta_book map_of_fold_bid)
next
  show "map_of (asks (process_snapshot s a b)) = map_of (rev a)"
    by (simp add: process_snapshot_book map_of_dict_of)
  show "map_of (bids (process_snapshot s a b)) = map_of (rev b)"
    by (simp add: process_snapshot_book map_of_dict_of)
next
  assume "0 \<notin> snd ` set a \<and> 0 \<notin> snd ` set b"
  then show "no_zero_level (process_snapshot s a b)"
    using set_dict_of [of a] set_dict_of [of b]
    by (auto simp: no_zero_level_def process_snapshot_book)
next
  show "no_zero_level (LOBEventExtractor_init md)"
    by (simp add: no_zero_level_def LOBEventExtractor_init_def)
qed

text \<open>
  C4 as stated fails on a snapshot that lists a level with volume 0: the level is stored.
\<close>

theorem snapshot_stores_zero_level_counterexample:
  "asks (process_snapshot (LOBEventExtractor_init 50) [(101, 0)] []) = [(101, 0)] \<and>
   \<not> no_zero_level (process_snapshot (LOBEventExtractor_init 50) [(101, 0)] [])"
  by code_simp

theorem zero_levels_only_from_snapshots_witness:
  "no_zero_level scenario_A \<and>
   no_zero_level (fst (process_delta scenario_A [(101, 0), (103, 2)] [(100, 0)] 1)) \<and>
   asks (fst (process_delta scenario_A [(101, 0), (103, 2)] [(100, 0)] 1)) =
     [(102, 5), (103, 2)]"
proof -
  have h: "no_zero_level scenario_A"
    by code_simp
  have b: "asks (fst (process_delta scenario_A [(101, 0), (103, 2)] [(100, 0)] 1)) =
     [(102, 5), (103, 2)]"
    by code_simp
  have "no_zero_level scenario_A \<longrightarrow>
      no_zero_level (fst (process_delta scenario_A [(101, 0), (103, 2)] [(100, 0)] 1))"
    using zero_levels_only_from_snapshots
      [of scenario_A "[(101, 0), (103, 2)]" "[(100, 0)]" 1 50]
    by (rule conjunct1)
  with h b show ?thesis by simp
qed

section \<open>The drivers and the mid-price gate\<close>

lemma process_snapshot_last_mid [simp]:
  "last_mid_price (process_snapshot s a b) = last_mid_price s"
  by (simp add: process_snapshot_def invalidate_sorted_def)

lemma process_delta_last_mid [simp]:
  "last_mid_price (fst (process_delta s a b idx)) = last_mid_price s"
  by (simp add: process_delta_state invalidate_sorted_def)

lemma parse_loop_first_object:
  "last_mid_price ex = None \<Longrightarrow> parse_loop ex idx (Obj k d # rest) = ([], Some TypeError)"
  by (simp add: Let_def)

lemma parse_loop_no_yield:
  assumes "last_mid_price ex = None"
  shows "fst (parse_loop ex idx lines) = []"
proof (cases lines)
  case Nil
  then show ?thesis by simp
next
  case (Cons l rest)
  show ?thesis
  proof (cases l)
    case Malformed
    then show ?thesis using Cons by simp
  next
    case NonObject
    then show ?thesis using Cons by simp
  next
    case (Obj k d)
    then show ?thesis
      using Cons by (simp only: parse_loop_first_object [OF assms] fst_conv)
  qed
qed

lemma init_last_mid: "last_mid_price (LOBEventExtractor_init md) = None"
  by (simp add: LOBEventExtractor_init_def)

text \<open>
  C5, as the code has it. \<^verbatim>\<open>parse_file\<close> never yields a tuple. When the first line is a
  JSON object, the first pass raises TypeError at the gate, \<^verbatim>\<open>math.isnan\<close> being applied
  to the \<^verbatim>\<open>None\<close> of a new extractor; when it is valid JSON but not an object, the first
  pass raises AttributeError at \<^verbatim>\<open>l.get\<close> before it reaches the gate.
\<close>

theorem parse_file_never_yields:
  "fst (parse_file md lines) = [] \<and>
   parse_file md (Obj k d # rest) = ([], Some TypeError) \<and>
   parse_file md (NonObject # rest) = ([], Some AttributeError) \<and>
   parse_file md (Malformed # rest) = ([], Some JSONDecodeError) \<and>
   parse_file md [] = ([], None)"
proof (intro conjI)
  show "fst (parse_file md lines) = []"
    unfolding parse_file_def by (rule parse_loop_no_yield [OF init_last_mid])
  show "parse_file md (Obj k d # rest) = ([], Some TypeError)"
    unfolding parse_file_def by (rule parse_loop_first_object [OF init_last_mid])
  show "parse_file md (NonObject # rest) = ([], Some AttributeError)"
    by (simp add: parse_file_def)
  show "parse_file md (Malformed # rest) = ([], Some JSONDecodeError)"
    by (simp add: parse_file_def)
  show "parse_file md [] = ([], None)"
    by (simp add: parse_file_def)
qed

theorem parse_file_never_yields_witness:
  "parse_file 50 [Obj Delta None, NonObject] = ([], Some TypeError) \<and>
   fst (parse_file 50 [Obj Delta None, NonObject]) = []"
  using parse_file_never_yields [of 50 "[Obj Delta None, NonObject]" Delta None "[NonObject]"]
  by simp

text \<open>
  C5 as stated fails on a first line that is valid JSON but not an object, such as
  \<^verbatim>\<open>[]\<close>: the exception is AttributeError, not TypeError.
\<close>

theorem parse_file_non_object_counterexample:
  "parse_file 50 [NonObject] = ([], Some AttributeError) \<and>
   snd (parse_file 50 [NonObject]) \<noteq> Some TypeError"
  by (simp add: parse_file_def)

text \<open>
  C3 on the code. In \<^verbatim>\<open>parse_file\<close> the first observation is not reported: the gate
  raises TypeError. In \<^verbatim>\<open>infer_events_from_lines\<close> two deltas that both leave the book
  empty give two invalid observations, and the second is recorded as a change.
\<close>

theorem mid_price_gate_defects:
  "parse_file 50 [Obj Snapshot (Some ([(101, 5)], [(100, 5)]))] = ([], Some TypeError) \<and>
   infer_events_from_lines [Obj Delta (Some ([], [])), Obj Delta (Some ([], []))] =
     Inr ([], [NaN, NaN])"
  by code_simp

end
